theory Spec2Isabelle
  imports Complex_Main
begin

section \<open>The prioritized replay buffer of \<^verbatim>\<open>dqn_agents/buffers/replay_buffer.py\<close>\<close>

text \<open>
  The class \<^verbatim>\<open>PrioritizedReplayBuffer\<close> keeps two numpy object arrays of
  \<^verbatim>\<open>buffer_size\<close> rows: \<^verbatim>\<open>experience\<close> (the stored transitions) and
  \<^verbatim>\<open>data\<close> (one row \<^verbatim>\<open>[priority, probability, weight, index]\<close> per slot),
  together with the running aggregates \<^verbatim>\<open>priorities_sum_alpha\<close>,
  \<^verbatim>\<open>priorities_max\<close> and \<^verbatim>\<open>weights_max\<close>.

  Python numbers are modelled as follows: the integers \<^verbatim>\<open>buffer_size\<close>,
  \<^verbatim>\<open>batch_size\<close>, \<^verbatim>\<open>experience_count\<close> and the slot indices are \<^typ>\<open>int\<close>;
  priorities, probabilities, weights and the exponents are \<^typ>\<open>real\<close>, that is, the
  floating-point operations of the source are read as exact arithmetic (no rounding, no
  overflow, no NaN). A method that raises returns \<open>Inl (e, s)\<close>, where \<open>s\<close> is the
  buffer as the exception leaves it (the fields assigned before the raise keep their new
  values); a method that returns normally gives \<open>Inr\<close>.
\<close>

subsection \<open>Python and numpy primitives\<close>

datatype error =
    ZeroDivisionError  \<comment> \<open>division by zero, modulo by zero, zero to a negative power\<close>
  | IndexError         \<comment> \<open>numpy index out of bounds\<close>
  | ValueError         \<comment> \<open>negative array size, \<^verbatim>\<open>max\<close> of an empty sequence, non-positive total weight\<close>
  | ComplexResult      \<comment> \<open>not an exception: the power of a negative base with a
                           non-integral exponent is a complex number in Python 3; the
                           model follows real values only and stops there\<close>

text \<open>
  \<^verbatim>\<open>x ** y\<close> on Python numbers. Unlike \<^term>\<open>(powr)\<close>, zero to the power zero is one, and
  zero to a negative power raises.
\<close>

definition py_pow :: "real \<Rightarrow> real \<Rightarrow> error + real" where
  "py_pow x y =
     (if y = 0 then Inr 1
      else if x = 0 then (if y < 0 then Inl ZeroDivisionError else Inr 0)
      else if x < 0 then
        (if y = of_int \<lfloor>y\<rfloor> then Inr (x powi \<lfloor>y\<rfloor>) else Inl ComplexResult)
      else Inr (x powr y))"

definition py_div :: "real \<Rightarrow> real \<Rightarrow> error + real" where
  "py_div a b = (if b = 0 then Inl ZeroDivisionError else Inr (a / b))"

text \<open>
  Indexing the first axis of a numpy array of \<open>n\<close> rows with a Python integer: a negative
  index counts from the end, anything outside \<open>-n ..< n\<close> raises \<^verbatim>\<open>IndexError\<close>.
\<close>

definition np_index :: "nat \<Rightarrow> int \<Rightarrow> nat option" where
  "np_index n i =
     (if 0 \<le> i \<and> i < int n then Some (nat i)
      else if - int n \<le> i \<and> i < 0 then Some (nat (i + int n))
      else None)"

text \<open>
  \<^verbatim>\<open>max(rows, key=...)\<close>: the first row whose key is maximal; \<^verbatim>\<open>ValueError\<close> (here
  \<open>None\<close>) on an empty sequence.
\<close>

fun py_max :: "('a \<Rightarrow> real) \<Rightarrow> 'a list \<Rightarrow> 'a option" where
  "py_max key [] = None"
| "py_max key (x # xs) = Some (foldl (\<lambda>best a. if key a > key best then a else best) x xs)"

text \<open>
  Elementwise \<^verbatim>\<open>column ** y\<close> on an object array: the first element that raises ends
  the operation.
\<close>

fun pow_all :: "real list \<Rightarrow> real \<Rightarrow> error + real list" where
  "pow_all [] y = Inr []"
| "pow_all (x # xs) y =
     (case py_pow x y of
        Inl e \<Rightarrow> Inl e
      | Inr v \<Rightarrow> (case pow_all xs y of Inl e \<Rightarrow> Inl e | Inr vs \<Rightarrow> Inr (v # vs)))"

subsection \<open>The buffer\<close>

record prow =
  priority :: real
  probability :: real
  weight :: real
  slot_index :: int

text \<open>A row of \<^verbatim>\<open>np.zeros(shape=(buffer_size, 4))\<close>.\<close>

definition zero_row :: prow where
  "zero_row = \<lparr>priority = 0, probability = 0, weight = 0, slot_index = 0\<rparr>"

text \<open>
  The transition \<^verbatim>\<open>[state, action, reward, next_state, done]\<close> is an opaque value of
  type \<^typ>\<open>'t\<close>; a row of \<^verbatim>\<open>experience\<close> that was never written (all zeros) is
  \<^term>\<open>None\<close>.
\<close>

record 't buf =
  buffer_size :: int
  batch_size :: int
  alpha :: real
  beta :: real
  compute_weights :: bool
  experience_count :: int
  experience :: "'t option list"
  data :: "prow list"
  priorities_sum_alpha :: real
  priorities_max :: real
  weights_max :: real

definition alpha_decay_rate :: real where
  "alpha_decay_rate = 99 / 100"

definition beta_growth_rate :: real where
  "beta_growth_rate = 1001 / 1000"

text \<open>
  \<^verbatim>\<open>__init__\<close>. \<^verbatim>\<open>np.zeros\<close> raises \<^verbatim>\<open>ValueError\<close> on a negative dimension. The seed
  only initialises the random generator, whose draws are an explicit argument of
  \<open>sample\<close> below.
\<close>

definition init :: "int \<Rightarrow> int \<Rightarrow> bool \<Rightarrow> real \<Rightarrow> real \<Rightarrow> error + 't buf" where
  "init sz batch cw a b =
     (if sz < 0 then Inl ValueError
      else Inr \<lparr>buffer_size = sz, batch_size = batch, alpha = a, beta = b,
                compute_weights = cw, experience_count = 0,
                experience = replicate (nat sz) None,
                data = replicate (nat sz) zero_row,
                priorities_sum_alpha = 0, priorities_max = 1, weights_max = 1\<rparr>)"

subsection \<open>\<^verbatim>\<open>add\<close>\<close>

text \<open>
  Lines 152--162: the branch taken when \<^verbatim>\<open>experience_count > buffer_size\<close>.
  \<^verbatim>\<open>temp\<close> is a view of row \<^verbatim>\<open>index\<close>, so it is read from the current \<open>data\<close>.
\<close>

definition add_overflow :: "'t buf \<Rightarrow> int \<Rightarrow> (error \<times> 't buf) + 't buf" where
  "add_overflow s index =
     (case np_index (length (data s)) index of
        None \<Rightarrow> Inl (IndexError, s)
      | Some i \<Rightarrow>
     (case py_pow (priority (data s ! i)) (alpha s) of
        Inl e \<Rightarrow> Inl (e, s)
      | Inr v \<Rightarrow>
     (let s1 = s\<lparr>priorities_sum_alpha := priorities_sum_alpha s - v\<rparr> in
      case (if priority (data s1 ! i) = priorities_max s1
            then (let s1' = s1\<lparr>data := (data s1)[i := (data s1 ! i)\<lparr>priority := 0\<rparr>]\<rparr> in
                  case py_max priority (data s1') of
                    None \<Rightarrow> Inl (ValueError, s1')
                  | Some r \<Rightarrow> Inr (s1'\<lparr>priorities_max := priority r\<rparr>))
            else Inr s1) of
        Inl e \<Rightarrow> Inl e
      | Inr s2 \<Rightarrow>
     (case (if compute_weights s2 \<and> weight (data s2 ! i) = weights_max s2
            then (let s2' = s2\<lparr>data := (data s2)[i := (data s2 ! i)\<lparr>weight := 0\<rparr>]\<rparr> in
                  case py_max weight (data s2') of
                    None \<Rightarrow> Inl (ValueError, s2')
                  | Some r \<Rightarrow> Inr (s2'\<lparr>weights_max := weight r\<rparr>))
            else Inr s2) of
        Inl e \<Rightarrow> Inl e
      | Inr s3 \<Rightarrow> Inr (s3\<lparr>experience_count := buffer_size s3\<rparr>)))))"

text \<open>Lines 164--169: the new row and the transition are written to slot \<^verbatim>\<open>index\<close>.\<close>

definition add_insert :: "'t buf \<Rightarrow> int \<Rightarrow> 't \<Rightarrow> (error \<times> 't buf) + 't buf" where
  "add_insert s1 index t =
     (let prio = priorities_max s1; w = weights_max s1 in
      case py_pow prio (alpha s1) of
        Inl e \<Rightarrow> Inl (e, s1)
      | Inr pa \<Rightarrow>
     (let s2 = s1\<lparr>priorities_sum_alpha := priorities_sum_alpha s1 + pa\<rparr> in
      case py_div pa (priorities_sum_alpha s2) of
        Inl e \<Rightarrow> Inl (e, s2)
      | Inr prob \<Rightarrow>
     (case np_index (length (experience s2)) index of
        None \<Rightarrow> Inl (IndexError, s2)
      | Some j \<Rightarrow>
     (let s3 = s2\<lparr>experience := (experience s2)[j := Some t]\<rparr> in
      case np_index (length (data s3)) index of
        None \<Rightarrow> Inl (IndexError, s3)
      | Some i \<Rightarrow>
          Inr (s3\<lparr>data := (data s3)[i := \<lparr>priority = prio, probability = prob,
                                            weight = w, slot_index = index\<rparr>]\<rparr>)))))"

text \<open>
  \<^verbatim>\<open>add\<close>: the count is incremented first, and the slot index is taken from the
  incremented count (lines 149--150); \<^verbatim>\<open>%\<close> raises on a zero \<^verbatim>\<open>buffer_size\<close>.
\<close>

definition add :: "'t buf \<Rightarrow> 't \<Rightarrow> (error \<times> 't buf) + 't buf" where
  "add s0 t =
     (let s = s0\<lparr>experience_count := experience_count s0 + 1\<rparr> in
      if buffer_size s = 0 then Inl (ZeroDivisionError, s)
      else
       (let index = experience_count s mod buffer_size s in
        case (if experience_count s > buffer_size s then add_overflow s index else Inr s) of
          Inl e \<Rightarrow> Inl e
        | Inr s1 \<Rightarrow> add_insert s1 index t))"

text \<open>A sequence of calls to \<^verbatim>\<open>add\<close>; an exception ends the sequence.\<close>

fun adds :: "'t buf \<Rightarrow> 't list \<Rightarrow> (error \<times> 't buf) + 't buf" where
  "adds s [] = Inr s"
| "adds s (t # ts) = (case add s t of Inl e \<Rightarrow> Inl e | Inr s' \<Rightarrow> adds s' ts)"

subsection \<open>\<^verbatim>\<open>update_priorities\<close>\<close>

text \<open>The body of the loop (lines 109--125) for one pair \<^verbatim>\<open>(td, index)\<close>.\<close>

definition update_priority :: "'t buf \<Rightarrow> real \<Rightarrow> int \<Rightarrow> (error \<times> 't buf) + 't buf" where
  "update_priority s td index =
     (let N = min (experience_count s) (buffer_size s);
          updated_priority = td;
          s1 = (if updated_priority > priorities_max s
                then s\<lparr>priorities_max := updated_priority\<rparr> else s) in
      case (if compute_weights s1
            then (case py_pow (of_int N * updated_priority) (- beta s1) of
                    Inl e \<Rightarrow> Inl (e, s1)
                  | Inr v \<Rightarrow>
                 (case py_div v (weights_max s1) of
                    Inl e \<Rightarrow> Inl (e, s1)
                  | Inr updated_weight \<Rightarrow>
                      Inr (updated_weight,
                           if updated_weight > weights_max s1
                           then s1\<lparr>weights_max := updated_weight\<rparr> else s1)))
            else Inr (1, s1)) of
        Inl e \<Rightarrow> Inl e
      | Inr (updated_weight, s2) \<Rightarrow>
     (case np_index (length (data s2)) index of
        None \<Rightarrow> Inl (IndexError, s2)
      | Some i \<Rightarrow>
     (let old_priority = priority (data s2 ! i) in
      case py_pow updated_priority (alpha s2) of
        Inl e \<Rightarrow> Inl (e, s2)
      | Inr a \<Rightarrow>
     (case py_pow old_priority (alpha s2) of
        Inl e \<Rightarrow> Inl (e, s2)
      | Inr b \<Rightarrow>
     (let s3 = s2\<lparr>priorities_sum_alpha := priorities_sum_alpha s2 + (a - b)\<rparr> in
      case py_div a (priorities_sum_alpha s3) of
        Inl e \<Rightarrow> Inl (e, s3)
      | Inr updated_probability \<Rightarrow>
          Inr (s3\<lparr>data := (data s3)[i := \<lparr>priority = updated_priority,
                                            probability = updated_probability,
                                            weight = updated_weight,
                                            slot_index = index\<rparr>]\<rparr>))))))"

text \<open>\<^verbatim>\<open>for td, index in zip(tds, indices)\<close>: the shorter sequence ends the loop.\<close>

fun update_priorities :: "'t buf \<Rightarrow> real list \<Rightarrow> int list \<Rightarrow> (error \<times> 't buf) + 't buf" where
  "update_priorities s (td # tds) (index # indices) =
     (case update_priority s td index of
        Inl e \<Rightarrow> Inl e
      | Inr s' \<Rightarrow> update_priorities s' tds indices)"
| "update_priorities s _ _ = Inr s"

subsection \<open>\<^verbatim>\<open>update_parameters\<close>\<close>

text \<open>
  One iteration of \<^verbatim>\<open>for element in self.data\<close> (lines 141--145). \<^verbatim>\<open>element\<close> is a
  view of row \<open>i\<close>, read from the current \<open>data\<close>; the row written is the one named by
  the last column of \<^verbatim>\<open>element\<close>.
\<close>

definition recompute_row :: "'t buf \<Rightarrow> int \<Rightarrow> nat \<Rightarrow> (error \<times> 't buf) + 't buf" where
  "recompute_row s N i =
     (let element = data s ! i in
      case py_pow (priority element) (alpha s) of
        Inl e \<Rightarrow> Inl (e, s)
      | Inr a \<Rightarrow>
     (case py_div a (priorities_sum_alpha s) of
        Inl e \<Rightarrow> Inl (e, s)
      | Inr prob \<Rightarrow>
     (case (if compute_weights s
            then (case py_pow (of_int N * probability element) (- beta s) of
                    Inl e \<Rightarrow> Inl e
                  | Inr v \<Rightarrow> py_div v (weights_max s))
            else Inr 1) of
        Inl e \<Rightarrow> Inl (e, s)
      | Inr w \<Rightarrow>
     (case np_index (length (data s)) (slot_index element) of
        None \<Rightarrow> Inl (IndexError, s)
      | Some j \<Rightarrow>
          Inr (s\<lparr>data := (data s)[j := \<lparr>priority = priority element, probability = prob,
                                         weight = w, slot_index = slot_index element\<rparr>]\<rparr>)))))"

fun recompute_rows :: "'t buf \<Rightarrow> int \<Rightarrow> nat list \<Rightarrow> (error \<times> 't buf) + 't buf" where
  "recompute_rows s N [] = Inr s"
| "recompute_rows s N (i # is) =
     (case recompute_row s N i of
        Inl e \<Rightarrow> Inl e
      | Inr s' \<Rightarrow> recompute_rows s' N is)"

text \<open>Lines 134--137: \<^verbatim>\<open>alpha\<close> decays, \<^verbatim>\<open>beta\<close> grows and is clamped to 1.\<close>

definition anneal :: "'t buf \<Rightarrow> 't buf" where
  "anneal s =
     (let s1 = s\<lparr>alpha := alpha s * alpha_decay_rate\<rparr>;
          s2 = s1\<lparr>beta := beta s1 * beta_growth_rate\<rparr> in
      if beta s2 > 1 then s2\<lparr>beta := 1\<rparr> else s2)"

text \<open>
  \<^verbatim>\<open>update_parameters\<close>: after the annealing step the sum is recomputed over all rows
  of \<^verbatim>\<open>data\<close> (line 139), then every row is rewritten in order.
\<close>

definition update_parameters :: "'t buf \<Rightarrow> (error \<times> 't buf) + 't buf" where
  "update_parameters s =
     (let s3 = anneal s;
          N = min (experience_count s3) (buffer_size s3) in
      case pow_all (map priority (data s3)) (alpha s3) of
        Inl e \<Rightarrow> Inl (e, s3)
      | Inr ps \<Rightarrow>
          recompute_rows (s3\<lparr>priorities_sum_alpha := sum_list ps\<rparr>) N [0..<length (data s3)])"

subsection \<open>\<^verbatim>\<open>sample\<close>\<close>

text \<open>
  \<^verbatim>\<open>bisect.bisect_right(a, x, lo, hi)\<close>, the binary search \<^verbatim>\<open>random.choices\<close> uses.
\<close>

function bisect_right :: "real list \<Rightarrow> real \<Rightarrow> nat \<Rightarrow> nat \<Rightarrow> nat" where
  "bisect_right a x lo hi =
     (if lo < hi
      then (let mid = (lo + hi) div 2 in
            if x < a ! mid then bisect_right a x lo mid else bisect_right a x (mid + 1) hi)
      else lo)"
  by pat_completeness auto
termination
  by (relation "measure (\<lambda>(a, x, lo, hi). hi - lo)") auto

declare bisect_right.simps [simp del]

text \<open>\<^verbatim>\<open>itertools.accumulate\<close>: the running sums.\<close>

fun accumulate :: "real \<Rightarrow> real list \<Rightarrow> real list" where
  "accumulate acc [] = []"
| "accumulate acc (w # ws) = (acc + w) # accumulate (acc + w) ws"

text \<open>
  \<^verbatim>\<open>random.choices(population, weights, k=k)\<close> as CPython 3.9 and later define it: the
  total of the weights must be positive, and every draw \<^verbatim>\<open>random()\<close> selects
  \<^verbatim>\<open>population[bisect(cum_weights, random() * total, 0, n - 1)]\<close>. The \<open>j\<close>-th call of
  \<^verbatim>\<open>random()\<close> returns \<open>rnd j\<close>, a number in \<open>[0, 1)\<close>.
\<close>

definition choices :: "'a list \<Rightarrow> real list \<Rightarrow> int \<Rightarrow> (nat \<Rightarrow> real) \<Rightarrow> error + 'a list" where
  "choices population weights k rnd =
     (let n = length population;
          cum_weights = accumulate 0 weights in
      if length cum_weights \<noteq> n then Inl ValueError
      else if cum_weights = [] then Inl IndexError
      else
       (let total = last cum_weights in
        if total \<le> 0 then Inl ValueError
        else Inr (map (\<lambda>j. population ! bisect_right cum_weights (rnd j * total) 0 (n - 1))
                      [0..<nat k])))"

definition encode_samples :: "'t buf \<Rightarrow> (nat \<Rightarrow> real) \<Rightarrow> error + prow list" where
  "encode_samples s rnd = choices (data s) (map probability (data s)) (batch_size s) rnd"

text \<open>\<^verbatim>\<open>self.experience[idx, c]\<close> with an array of indices: any index out of range raises.\<close>

fun take_rows :: "'a list \<Rightarrow> int list \<Rightarrow> error + 'a list" where
  "take_rows xs [] = Inr []"
| "take_rows xs (i # is) =
     (case np_index (length xs) i of
        None \<Rightarrow> Inl IndexError
      | Some j \<Rightarrow> (case take_rows xs is of Inl e \<Rightarrow> Inl e | Inr ys \<Rightarrow> Inr (xs ! j # ys)))"

text \<open>
  \<^verbatim>\<open>sample\<close> returns the transitions of the drawn rows (in the source, stacked column by
  column; whether the opaque payloads stack is outside the model), their weights and
  their indices. With no row drawn, \<^verbatim>\<open>np.array([])\<close> is one-dimensional and the column
  access raises \<^verbatim>\<open>IndexError\<close>. The buffer is not modified.
\<close>

definition sample :: "'t buf \<Rightarrow> (nat \<Rightarrow> real) \<Rightarrow> error + ('t option list \<times> real list \<times> int list)" where
  "sample s rnd =
     (case encode_samples s rnd of
        Inl e \<Rightarrow> Inl e
      | Inr sampled_batch \<Rightarrow>
          if sampled_batch = [] then Inl IndexError
          else
           (let weights = map weight sampled_batch;
                idx = map slot_index sampled_batch in
            case take_rows (experience s) idx of
              Inl e \<Rightarrow> Inl e
            | Inr transitions \<Rightarrow> Inr (transitions, weights, idx)))"

text \<open>\<^verbatim>\<open>__len__\<close> returns \<^verbatim>\<open>experience_count\<close>.\<close>

definition len :: "'t buf \<Rightarrow> int" where
  "len s = experience_count s"

subsection \<open>Well-formed buffers\<close>

text \<open>
  Both arrays have \<^verbatim>\<open>buffer_size\<close> rows: \<^verbatim>\<open>__init__\<close> allocates them so and no method
  resizes them.
\<close>

definition wf :: "'t buf \<Rightarrow> bool" where
  "wf s = (0 \<le> buffer_size s \<and> length (data s) = nat (buffer_size s) \<and>
           length (experience s) = nat (buffer_size s))"

subsection \<open>Example buffers\<close>

text \<open>
  The buffer built by \<^verbatim>\<open>PrioritizedReplayBuffer(2, batch_size=1, compute_weights=False,
  alpha=1, beta=1)\<close> and the buffers it becomes when the transitions \<open>10\<close>, \<open>11\<close>,
  \<open>12\<close>, \<open>13\<close> are added in this order: \<open>ex1\<close> after one call of \<^verbatim>\<open>add\<close>,
  \<open>ex2\<close> after two, \<open>ex3\<close> after three, \<open>ex4\<close> after four.
\<close>

definition ex0 :: "nat buf" where
  "ex0 = \<lparr>buffer_size = 2, batch_size = 1, alpha = 1, beta = 1,
            compute_weights = False, experience_count = 0,
            experience = [None, None],
            data = [zero_row, zero_row],
            priorities_sum_alpha = 0, priorities_max = 1, weights_max = 1\<rparr>"

definition ex1 :: "nat buf" where
  "ex1 = ex0\<lparr>experience_count := 1, experience := [None, Some 10],
            data := [zero_row, \<lparr>priority = 1, probability = 1, weight = 1, slot_index = 1\<rparr>],
            priorities_sum_alpha := 1\<rparr>"

definition ex2 :: "nat buf" where
  "ex2 = ex0\<lparr>experience_count := 2, experience := [Some 11, Some 10],
            data := [\<lparr>priority = 1, probability = 1 / 2, weight = 1, slot_index = 0\<rparr>,
                     \<lparr>priority = 1, probability = 1, weight = 1, slot_index = 1\<rparr>],
            priorities_sum_alpha := 2\<rparr>"

definition ex3 :: "nat buf" where
  "ex3 = ex0\<lparr>experience_count := 2, experience := [Some 11, Some 12],
            data := [\<lparr>priority = 1, probability = 1 / 2, weight = 1, slot_index = 0\<rparr>,
                     \<lparr>priority = 1, probability = 1 / 2, weight = 1, slot_index = 1\<rparr>],
            priorities_sum_alpha := 2\<rparr>"

definition ex4 :: "nat buf" where
  "ex4 = ex0\<lparr>experience_count := 2, experience := [Some 11, Some 13],
            data := [\<lparr>priority = 1, probability = 1 / 2, weight = 1, slot_index = 0\<rparr>,
                     \<lparr>priority = 1, probability = 1 / 2, weight = 1, slot_index = 1\<rparr>],
            priorities_sum_alpha := 2\<rparr>"

text \<open>
  More buffers of the example: \<open>ex_lowered\<close> is \<open>ex2\<close> after
  \<^verbatim>\<open>update_priorities([0.5, 0.5], [0, 1])\<close>, \<open>ex_negative\<close> is \<open>ex2\<close> after
  \<^verbatim>\<open>update_priorities([0.5], [-1])\<close>, \<open>ex_first\<close> is \<open>ex2\<close> after
  \<^verbatim>\<open>update_priorities([0.5], [0])\<close>, \<open>ex_unadded\<close> is the fresh buffer \<open>ex0\<close> after
  \<^verbatim>\<open>update_priorities([1], [0])\<close>, and \<open>ex1_annealed\<close> is \<open>ex1\<close> after
  \<^verbatim>\<open>update_parameters()\<close>. The buffers \<open>exw0\<close>, \<open>exw2\<close> are \<open>ex0\<close>, \<open>ex2\<close>
  constructed with \<^verbatim>\<open>compute_weights=True\<close>, and \<open>exw2_annealed\<close> is \<open>exw2\<close> after
  \<^verbatim>\<open>update_parameters()\<close>. \<open>zero_draws\<close> is a random generator that always returns 0.
\<close>

definition ex_lowered :: "nat buf" where
  "ex_lowered = ex2\<lparr>data := [\<lparr>priority = 1 / 2, probability = 1 / 3, weight = 1, slot_index = 0\<rparr>,
                     \<lparr>priority = 1 / 2, probability = 1 / 2, weight = 1, slot_index = 1\<rparr>],
            priorities_sum_alpha := 1\<rparr>"

definition ex_negative :: "nat buf" where
  "ex_negative = ex2\<lparr>data := [\<lparr>priority = 1, probability = 1 / 2, weight = 1, slot_index = 0\<rparr>,
                     \<lparr>priority = 1 / 2, probability = 1 / 3, weight = 1, slot_index = - 1\<rparr>],
            priorities_sum_alpha := 3 / 2\<rparr>"

definition ex_first :: "nat buf" where
  "ex_first = ex2\<lparr>data := [\<lparr>priority = 1 / 2, probability = 1 / 3, weight = 1, slot_index = 0\<rparr>,
                     \<lparr>priority = 1, probability = 1, weight = 1, slot_index = 1\<rparr>],
            priorities_sum_alpha := 3 / 2\<rparr>"

definition ex_unadded :: "nat buf" where
  "ex_unadded = ex0\<lparr>data := [\<lparr>priority = 1, probability = 1, weight = 1, slot_index = 0\<rparr>, zero_row],
            priorities_sum_alpha := 1\<rparr>"

definition ex1_annealed :: "nat buf" where
  "ex1_annealed = ex1\<lparr>alpha := 99 / 100,
             data := [\<lparr>priority = 0, probability = 0, weight = 1, slot_index = 0\<rparr>,
                      \<lparr>priority = 1, probability = 1, weight = 1, slot_index = 1\<rparr>]\<rparr>"

definition exw0 :: "nat buf" where
  "exw0 = ex0\<lparr>compute_weights := True\<rparr>"

definition exw2 :: "nat buf" where
  "exw2 = ex2\<lparr>compute_weights := True\<rparr>"

definition exw2_annealed :: "nat buf" where
  "exw2_annealed = exw2\<lparr>alpha := 99 / 100,
             data := [\<lparr>priority = 1, probability = 1 / 2, weight = 1, slot_index = 0\<rparr>,
                      \<lparr>priority = 1, probability = 1 / 2, weight = 1 / 2, slot_index = 1\<rparr>]\<rparr>"

definition zero_draws :: "nat \<Rightarrow> real" where
  "zero_draws j = 0"

subsection \<open>Sequences of calls\<close>

text \<open>The buffer a call leaves behind, whether it returned or raised.\<close>

definition state_of :: "(error \<times> 's) + 's \<Rightarrow> 's" where
  "state_of r = (case r of Inl (e, s) \<Rightarrow> s | Inr s \<Rightarrow> s)"

text \<open>
  A caller's script: calls of the four public methods in any order. \<open>run_calls\<close>
  performs them one after the other, going on after a call that raised with the buffer
  that call left, and collects the importance weights that the calls of \<^verbatim>\<open>sample\<close>
  returned.
\<close>

datatype 't call =
    Add 't
  | UpdatePriorities "real list" "int list"
  | UpdateParameters
  | Sample "nat \<Rightarrow> real"

fun run_call :: "'t buf \<Rightarrow> 't call \<Rightarrow> 't buf \<times> real list" where
  "run_call s (Add t) = (state_of (add s t), [])"
| "run_call s (UpdatePriorities tds indices) = (state_of (update_priorities s tds indices), [])"
| "run_call s UpdateParameters = (state_of (update_parameters s), [])"
| "run_call s (Sample rnd) =
     (case sample s rnd of
        Inl e \<Rightarrow> (s, [])
      | Inr (transitions, weights, idx) \<Rightarrow> (s, weights))"

fun run_calls :: "'t buf \<Rightarrow> 't call list \<Rightarrow> 't buf \<times> real list" where
  "run_calls s [] = (s, [])"
| "run_calls s (c # cs) =
     (case run_call s c of (s', ws) \<Rightarrow> (case run_calls s' cs of (s'', ws') \<Rightarrow> (s'', ws @ ws')))"

text \<open>
  \<^verbatim>\<open>random.random()\<close> returns a number in \<open>[0, 1)\<close>: the condition on the \<open>k\<close> draws
  that a call of \<^verbatim>\<open>sample\<close> with batch size \<open>k\<close> makes.
\<close>

fun unit_draws :: "nat \<Rightarrow> 't call \<Rightarrow> bool" where
  "unit_draws k (Sample rnd) = list_all (\<lambda>j. 0 \<le> rnd j \<and> rnd j < 1) [0..<k]"
| "unit_draws k _ = True"

text \<open>
  The state of the weights in a buffer that does not compute them: \<^verbatim>\<open>weights_max\<close> is
  still 1, and every row of \<^verbatim>\<open>data\<close> is either a row of zeros that was never written
  or carries the weight 1.
\<close>

definition weights_fixed :: "'t buf \<Rightarrow> bool" where
  "weights_fixed s = (\<not> compute_weights s \<and> weights_max s = 1 \<and>
      (\<forall>r \<in> set (data s). r = zero_row \<or> weight r = 1))"

section \<open>Properties of \<^verbatim>\<open>add\<close>\<close>

lemma add_overflow_Inr:
  assumes "add_overflow s index = Inr s'"
  shows "\<exists>i. np_index (length (data s)) index = Some i \<and>
             experience s' = experience s \<and> buffer_size s' = buffer_size s \<and>
             batch_size s' = batch_size s \<and> alpha s' = alpha s \<and> beta s' = beta s \<and>
             compute_weights s' = compute_weights s \<and>
             experience_count s' = buffer_size s \<and>
             length (data s') = length (data s) \<and>
             (\<forall>j. j \<noteq> i \<longrightarrow> data s' ! j = data s ! j)"
  using assms
  by (auto simp: add_overflow_def Let_def split: option.splits sum.splits if_splits)

lemma add_shape:
  assumes "wf s" and "add s t = Inr s'"
  shows "\<exists>s1 pa.
           buffer_size s \<noteq> 0 \<and>
           (if experience_count s + 1 > buffer_size s
            then add_overflow (s\<lparr>experience_count := experience_count s + 1\<rparr>)
                   ((experience_count s + 1) mod buffer_size s)
            else Inr (s\<lparr>experience_count := experience_count s + 1\<rparr>)) = Inr s1 \<and>
           py_pow (priorities_max s1) (alpha s1) = Inr pa \<and>
           priorities_sum_alpha s1 + pa \<noteq> 0 \<and>
           s' = s1\<lparr>priorities_sum_alpha := priorities_sum_alpha s1 + pa,
                   experience := (experience s1)[nat ((experience_count s + 1) mod buffer_size s) := Some t],
                   data := (data s1)[nat ((experience_count s + 1) mod buffer_size s) :=
                      \<lparr>priority = priorities_max s1,
                       probability = pa / (priorities_sum_alpha s1 + pa),
                       weight = weights_max s1,
                       slot_index = (experience_count s + 1) mod buffer_size s\<rparr>]\<rparr>"
proof -
  from assms(2) have nz: "buffer_size s \<noteq> 0"
    by (auto simp: add_def Let_def split: if_splits)
  with assms(1) have pos: "0 < buffer_size s" by (simp add: wf_def)
  have len: "length (data s) = nat (buffer_size s)" "length (experience s) = nat (buffer_size s)"
    using assms(1) by (simp_all add: wf_def)
  have np: "np_index (nat (buffer_size s)) ((experience_count s + 1) mod buffer_size s)
             = Some (nat ((experience_count s + 1) mod buffer_size s))"
    using pos by (simp add: np_index_def)
  show ?thesis
    using assms(2) nz np len
    by (auto simp: add_def add_insert_def Let_def py_div_def
             split: if_splits sum.splits option.splits dest!: add_overflow_Inr)
qed

lemma add_Inr:
  assumes "wf s" and "add s t = Inr s'"
    and "i = nat ((experience_count s + 1) mod buffer_size s)"
  shows "0 < buffer_size s"
    and "buffer_size s' = buffer_size s"
    and "batch_size s' = batch_size s" and "alpha s' = alpha s" and "beta s' = beta s"
    and "compute_weights s' = compute_weights s"
    and "experience_count s' =
          (if experience_count s + 1 > buffer_size s then buffer_size s
           else experience_count s + 1)"
    and "experience s' = (experience s)[i := Some t]"
    and "length (data s') = length (data s)"
    and "\<forall>j. j \<noteq> i \<longrightarrow> data s' ! j = data s ! j"
    and "priority (data s' ! i) = priorities_max s'"
    and "weight (data s' ! i) = weights_max s'"
    and "slot_index (data s' ! i) = int i"
    and "py_pow (priority (data s' ! i)) (alpha s') =
           Inr (probability (data s' ! i) * priorities_sum_alpha s')"
    and "priorities_sum_alpha s' \<noteq> 0"
proof -
  let ?s = "s\<lparr>experience_count := experience_count s + 1\<rparr>"
  let ?index = "(experience_count s + 1) mod buffer_size s"
  from add_shape [OF assms(1,2)] obtain s1 pa where
    nz: "buffer_size s \<noteq> 0" and
    s1: "(if experience_count s + 1 > buffer_size s then add_overflow ?s ?index else Inr ?s) = Inr s1" and
    pa: "py_pow (priorities_max s1) (alpha s1) = Inr pa" and
    sum: "priorities_sum_alpha s1 + pa \<noteq> 0" and
    s': "s' = s1\<lparr>priorities_sum_alpha := priorities_sum_alpha s1 + pa,
                   experience := (experience s1)[nat ?index := Some t],
                   data := (data s1)[nat ?index :=
                      \<lparr>priority = priorities_max s1,
                       probability = pa / (priorities_sum_alpha s1 + pa),
                       weight = weights_max s1,
                       slot_index = ?index\<rparr>]\<rparr>"
    by blast
  from nz assms(1) show pos: "0 < buffer_size s" by (simp add: wf_def)
  have len: "length (data s) = nat (buffer_size s)"
    using assms(1) by (simp add: wf_def)
  have idx: "0 \<le> ?index" "?index < buffer_size s" using pos by simp_all
  have np: "np_index (length (data ?s)) ?index = Some i"
    using idx len by (simp add: np_index_def assms(3))
  have s1_props: "experience s1 = experience s" "buffer_size s1 = buffer_size s"
     "batch_size s1 = batch_size s" "alpha s1 = alpha s" "beta s1 = beta s"
     "compute_weights s1 = compute_weights s"
     "experience_count s1 = (if experience_count s + 1 > buffer_size s then buffer_size s
           else experience_count s + 1)"
     "length (data s1) = length (data s)"
     "\<forall>j. j \<noteq> i \<longrightarrow> data s1 ! j = data s ! j"
    using s1 np by (auto split: if_splits dest!: add_overflow_Inr)
  have il: "i < length (data s1)" using idx len s1_props(8) by (simp add: assms(3))
  show "buffer_size s' = buffer_size s"
    and "batch_size s' = batch_size s" and "alpha s' = alpha s" and "beta s' = beta s"
    and "compute_weights s' = compute_weights s"
    and "experience_count s' =
          (if experience_count s + 1 > buffer_size s then buffer_size s
           else experience_count s + 1)"
    and "experience s' = (experience s)[i := Some t]"
    and "length (data s') = length (data s)"
    and "\<forall>j. j \<noteq> i \<longrightarrow> data s' ! j = data s ! j"
    using s1_props by (simp_all add: s' assms(3))
  show "priority (data s' ! i) = priorities_max s'"
    and "weight (data s' ! i) = weights_max s'"
    and "slot_index (data s' ! i) = int i"
    using il idx by (simp_all add: s' assms(3))
  show "py_pow (priority (data s' ! i)) (alpha s') =
           Inr (probability (data s' ! i) * priorities_sum_alpha s')"
    and "priorities_sum_alpha s' \<noteq> 0"
    using il pa sum by (simp_all add: s' assms(3))
qed

lemma add_wf:
  assumes "wf s" and "add s t = Inr s'"
  shows "wf s'"
  using add_Inr(2,8,9) [OF assms refl] assms(1) by (simp add: wf_def)

lemma init_Inr:
  assumes "init sz b cw a be = Inr s"
  shows "wf s" and "experience_count s = 0" and "buffer_size s = sz" and "0 \<le> sz"
    and "compute_weights s = cw" and "weights_max s = 1" and "data s = replicate (nat sz) zero_row"
    and "batch_size s = b"
  using assms by (auto simp: init_def wf_def split: if_splits)

lemma adds_wf: "wf s \<Longrightarrow> adds s ts = Inr s' \<Longrightarrow> wf s'"
  by (induction ts arbitrary: s) (auto split: sum.splits dest: add_wf)

lemma adds_count:
  assumes "wf s" and "experience_count s \<le> buffer_size s" and "adds s ts = Inr s'"
  shows "experience_count s' = min (experience_count s + int (length ts)) (buffer_size s) \<and>
         buffer_size s' = buffer_size s"
  using assms
proof (induction ts arbitrary: s)
  case Nil
  then show ?case by simp
next
  case (Cons t ts)
  from Cons.prems(3) obtain s1 where s1: "add s t = Inr s1" and rest: "adds s1 ts = Inr s'"
    by (auto split: sum.splits)
  note p = add_Inr [OF Cons.prems(1) s1 refl]
  have "wf s1" using add_wf [OF Cons.prems(1) s1] .
  moreover have "experience_count s1 \<le> buffer_size s1" using p(2,7) Cons.prems(2) by auto
  ultimately have "experience_count s' = min (experience_count s1 + int (length ts)) (buffer_size s1) \<and>
         buffer_size s' = buffer_size s1"
    using Cons.IH rest by blast
  then show ?case using p(2,7) Cons.prems(2) by auto
qed

lemma add_full_step:
  assumes "wf s" and "2 \<le> buffer_size s" and "experience_count s = buffer_size s"
    and "add s t = Inr s'"
  shows "wf s'" and "buffer_size s' = buffer_size s" and "experience_count s' = buffer_size s"
    and "experience s' = (experience s)[1 := Some t]"
    and "\<forall>j. j \<noteq> 1 \<longrightarrow> data s' ! j = data s ! j"
    and "slot_index (data s' ! 1) = 1"
proof -
  have m: "(experience_count s + 1) mod buffer_size s = 1"
    using assms(2,3) by simp
  note p = add_Inr [OF assms(1,4) refl, unfolded m]
  show "wf s'" using add_wf [OF assms(1,4)] .
  show "buffer_size s' = buffer_size s" using p(2) .
  show "experience_count s' = buffer_size s" using p(7) assms(3) by simp
  show "experience s' = (experience s)[1 := Some t]" using p(8) by simp
  show "\<forall>j. j \<noteq> 1 \<longrightarrow> data s' ! j = data s ! j" using p(10) by simp
  show "slot_index (data s' ! 1) = 1" using p(13) by simp
qed

subsection \<open>The example run\<close>

lemmas eval_defs = add_def add_insert_def add_overflow_def py_pow_def py_div_def np_index_def Let_def
  zero_row_def update_priority_def

lemma init_ex0: "init 2 1 False 1 1 = Inr ex0"
  by (simp add: init_def ex0_def numeral_2_eq_2)

lemma add_ex0: "add ex0 10 = Inr ex1"
  by (simp add: ex0_def ex1_def eval_defs)

lemma add_ex1: "add ex1 11 = Inr ex2"
  by (simp add: ex0_def ex1_def ex2_def eval_defs)

lemma add_ex2: "add ex2 12 = Inr ex3"
  by (simp add: ex0_def ex2_def ex3_def eval_defs)

lemma adds_ex2: "adds ex2 [12, 13] = Inr ex4"
  by (simp add: ex0_def ex2_def ex4_def eval_defs)

lemma adds_ex0_4: "adds ex0 [10, 11, 12, 13] = Inr ex4"
  by (simp add: add_ex0 add_ex1 adds_ex2 [simplified])

lemma wf_ex: "wf ex0" "wf ex1" "wf ex2"
  by (simp_all add: wf_def ex0_def ex1_def ex2_def)

subsection \<open>The slot written by \<^verbatim>\<open>add\<close>\<close>

text \<open>
  C5, as stated, fails: the slot index is computed after \<^verbatim>\<open>experience_count\<close> has been
  incremented (lines 149--150). On the fresh buffer of capacity 2 the count is 0, so the
  claimed slot is \<open>0 mod 2 = 0\<close>; the first \<^verbatim>\<open>add\<close> writes slot 1 and leaves slot 0
  unwritten.
\<close>

theorem first_add_writes_slot_1:
  "init 2 1 False 1 1 = Inr ex0 \<and> experience_count ex0 mod buffer_size ex0 = 0 \<and>
   add ex0 10 = Inr ex1 \<and> experience ex1 ! 0 = None \<and> experience ex1 ! 1 = Some 10"
  by (intro conjI init_ex0 add_ex0) (simp_all add: ex0_def ex1_def)

text \<open>
  C5, amended: every call of \<^verbatim>\<open>add\<close> that returns writes the transition to the slot
  \<open>(experience_count + 1) mod buffer_size\<close>, where \<open>experience_count\<close> is the value before
  the call, and records that index in the last column of the row. On a fresh buffer the
  \<open>n\<close>-th \<^verbatim>\<open>add\<close> therefore writes slot \<open>n mod buffer_size\<close>: with a capacity of at least
  2 the first one writes slot 1, and the one that fills the buffer writes slot 0.
\<close>

theorem add_writes_incremented_slot:
  assumes "wf s" and "add s t = Inr s'"
  shows "0 \<le> (experience_count s + 1) mod buffer_size s \<and>
         (experience_count s + 1) mod buffer_size s < buffer_size s \<and>
         experience s' =
           (experience s)[nat ((experience_count s + 1) mod buffer_size s) := Some t] \<and>
         slot_index (data s' ! nat ((experience_count s + 1) mod buffer_size s)) =
           (experience_count s + 1) mod buffer_size s"
  using add_Inr(1,8,13) [OF assms refl] by simp

theorem add_writes_incremented_slot_witness:
  "wf ex1 \<and> add ex1 11 = Inr ex2 \<and>
   (experience_count ex1 + 1) mod buffer_size ex1 = 0 \<and>
   experience ex2 = (experience ex1)[0 := Some 11] \<and> slot_index (data ex2 ! 0) = 0"
  using add_writes_incremented_slot [OF wf_ex(2) add_ex1] wf_ex(2) add_ex1
  by (simp add: ex0_def ex1_def)

subsection \<open>\<^verbatim>\<open>experience_count\<close>\<close>

text \<open>
  C4, as stated, fails: line 162 resets \<^verbatim>\<open>experience_count\<close> to \<^verbatim>\<open>buffer_size\<close> whenever
  it has exceeded it. After three calls of \<^verbatim>\<open>add\<close> on a buffer of capacity 2 the count
  is 2, not 3.
\<close>

theorem experience_count_not_total_adds:
  "init 2 1 False 1 1 = Inr ex0 \<and> adds ex0 [10, 11, 12] = Inr ex3 \<and>
   experience_count ex3 = 2 \<and> length [10, 11, 12 :: nat] = 3"
  by (intro conjI init_ex0) (simp_all add: add_ex0 add_ex1 add_ex2, simp add: ex3_def)

text \<open>
  C4, amended: \<^verbatim>\<open>experience_count\<close> is capped at the capacity. After \<open>n\<close> calls of
  \<^verbatim>\<open>add\<close> that return, on a freshly constructed buffer, it equals \<open>min n buffer_size\<close>
  (so it never decreases, and it is the value \<^verbatim>\<open>__len__\<close> reports).
\<close>

theorem experience_count_capped:
  assumes "init sz b cw a be = Inr s0" and "adds s0 ts = Inr s"
  shows "experience_count s = min (int (length ts)) sz \<and> len s = min (int (length ts)) sz"
  using adds_count [OF init_Inr(1) [OF assms(1)] _ assms(2)] init_Inr(2,3,4) [OF assms(1)]
  by (simp add: len_def)

theorem experience_count_capped_witness:
  "init 2 1 False 1 1 = Inr ex0 \<and> adds ex0 [10, 11, 12, 13] = Inr ex4 \<and>
   experience_count ex4 = min (int (length [10, 11, 12, 13 :: nat])) 2"
  using experience_count_capped [OF init_ex0 adds_ex0_4] init_ex0 adds_ex0_4 by simp

subsection \<open>A full buffer\<close>

text \<open>
  C10: once \<^verbatim>\<open>experience_count\<close> equals the capacity, and the capacity is at least 2,
  every later call of \<^verbatim>\<open>add\<close> that returns leaves \<^verbatim>\<open>experience_count\<close> equal to the
  capacity and writes slot \<open>(capacity + 1) mod capacity = 1\<close>: after any number of such
  calls, slot 1 of \<^verbatim>\<open>experience\<close> holds the last transition added, every other slot of
  \<^verbatim>\<open>experience\<close> is as it was, and so is every row of \<^verbatim>\<open>data\<close> other than row 1.
\<close>

theorem adds_when_full_overwrite_slot_1:
  assumes "wf s" and "2 \<le> buffer_size s" and "experience_count s = buffer_size s"
    and "adds s ts = Inr s'"
  shows "experience_count s' = buffer_size s \<and> buffer_size s' = buffer_size s \<and>
         experience s' = (if ts = [] then experience s else (experience s)[1 := Some (last ts)]) \<and>
         (\<forall>j. j \<noteq> 1 \<longrightarrow> data s' ! j = data s ! j)"
  using assms
proof (induction ts arbitrary: s)
  case Nil
  then show ?case by simp
next
  case (Cons t ts)
  from Cons.prems(4) obtain s1 where s1: "add s t = Inr s1" and rest: "adds s1 ts = Inr s'"
    by (auto split: sum.splits)
  note p = add_full_step [OF Cons.prems(1,2,3) s1]
  have "experience_count s' = buffer_size s1 \<and> buffer_size s' = buffer_size s1 \<and>
         experience s' = (if ts = [] then experience s1 else (experience s1)[1 := Some (last ts)]) \<and>
         (\<forall>j. j \<noteq> 1 \<longrightarrow> data s' ! j = data s1 ! j)"
    using Cons.IH [OF p(1) _ _ rest] p(2,3) Cons.prems(2) by simp
  then show ?case using p(2,4,5) by simp
qed

theorem adds_when_full_overwrite_slot_1_witness:
  "wf ex2 \<and> 2 \<le> buffer_size ex2 \<and> experience_count ex2 = buffer_size ex2 \<and>
   adds ex2 [12, 13] = Inr ex4 \<and> experience_count ex4 = buffer_size ex2 \<and>
   experience ex4 = (experience ex2)[1 := Some 13] \<and> data ex4 ! 0 = data ex2 ! 0"
proof -
  have h: "wf ex2" "2 \<le> buffer_size ex2" "experience_count ex2 = buffer_size ex2"
    by (simp_all add: wf_def ex2_def ex0_def)
  from adds_when_full_overwrite_slot_1 [OF h adds_ex2] h adds_ex2
  show ?thesis by simp
qed

text \<open>
  C1 (after \<open>capacity + k\<close> calls the buffer holds the most recent \<open>capacity\<close>
  transitions in circular order): the code takes the slot index modulo the capacity to
  this end, and misses it by the behaviour of a full buffer shown above. With capacity 2,
  the four transitions 10, 11, 12, 13 leave 11 and 13 in the buffer: the third and the
  fourth call both write slot 1, so 12, one of the two most recent transitions, is lost
  and the older 11 stays.
\<close>

theorem add_loses_recent_transition:
  "init 2 1 False 1 1 = Inr ex0 \<and> adds ex0 [10, 11, 12, 13] = Inr ex4 \<and>
   experience ex4 = [Some 11, Some 13] \<and> Some 12 \<notin> set (experience ex4)"
  by (intro conjI init_ex0 adds_ex0_4) (simp_all add: ex4_def)

subsection \<open>Stored probabilities\<close>

text \<open>
  C2, as stated, fails: \<^verbatim>\<open>add\<close> computes a probability for the row it writes only. After
  two calls on the example buffer the sum of the priorities is 2, and slot 1, written by
  the first call, still stores the probability 1 it got when the sum was 1, not
  \<open>1 / 2\<close>.
\<close>

theorem add_leaves_old_probabilities:
  "init 2 1 False 1 1 = Inr ex0 \<and> adds ex0 [10, 11] = Inr ex2 \<and>
   py_pow (priority (data ex2 ! 1)) (alpha ex2) = Inr 1 \<and>
   priorities_sum_alpha ex2 = 2 \<and> probability (data ex2 ! 1) = 1 \<and>
   probability (data ex2 ! 1) \<noteq> 1 / priorities_sum_alpha ex2"
  by (intro conjI init_ex0) (simp_all add: add_ex0 add_ex1, simp_all add: ex0_def ex2_def py_pow_def)

text \<open>
  C2, amended: after a call of \<^verbatim>\<open>add\<close> returns, the row it wrote stores the probability
  \<open>priority ** alpha / priorities_sum_alpha\<close>, with the value of \<^verbatim>\<open>priorities_sum_alpha\<close>
  after the call; every other row of \<^verbatim>\<open>data\<close> is unchanged (it keeps the probability
  computed when it was written).
\<close>

theorem add_new_slot_probability:
  assumes "wf s" and "add s t = Inr s'"
  shows "\<exists>v. py_pow (priority (data s' ! nat ((experience_count s + 1) mod buffer_size s)))
                   (alpha s') = Inr v \<and>
             priorities_sum_alpha s' \<noteq> 0 \<and>
             probability (data s' ! nat ((experience_count s + 1) mod buffer_size s)) =
               v / priorities_sum_alpha s' \<and>
             (\<forall>j. j \<noteq> nat ((experience_count s + 1) mod buffer_size s) \<longrightarrow>
                   data s' ! j = data s ! j)"
  using add_Inr(10,14,15) [OF assms refl] by simp

theorem add_new_slot_probability_witness:
  "wf ex1 \<and> add ex1 11 = Inr ex2 \<and>
   py_pow (priority (data ex2 ! 0)) (alpha ex2) = Inr 1 \<and>
   probability (data ex2 ! 0) = 1 / priorities_sum_alpha ex2 \<and>
   data ex2 ! 1 = data ex1 ! 1"
  using add_new_slot_probability [OF wf_ex(2) add_ex1] wf_ex(2) add_ex1
  by (simp add: ex0_def ex1_def ex2_def py_pow_def)

section \<open>Properties of \<^verbatim>\<open>update_priorities\<close> and \<^verbatim>\<open>update_parameters\<close>\<close>

lemma adds_ex0_2: "adds ex0 [10, 11] = Inr ex2"
  by (simp add: add_ex0 add_ex1)

lemma init_exw0: "init 2 1 True 1 1 = Inr exw0"
  by (simp add: init_def ex0_def exw0_def numeral_2_eq_2)

lemma adds_exw0: "adds exw0 [10, 11] = Inr exw2"
  by (simp add: ex0_def ex2_def exw0_def exw2_def eval_defs)

lemma update_parameters_exw2: "update_parameters exw2 = Inr exw2_annealed"
  by (simp add: ex0_def ex2_def exw2_def exw2_annealed_def update_parameters_def anneal_def
      recompute_row_def alpha_decay_rate_def beta_growth_rate_def eval_defs upt_rec powr_minus)

lemma update_priorities_lower: "update_priorities ex2 [1 / 2, 1 / 2] [0, 1] = Inr ex_lowered"
  by (simp add: ex0_def ex2_def ex_lowered_def eval_defs)

lemma update_priorities_negative: "update_priorities ex2 [1 / 2] [- 1] = Inr ex_negative"
  by (simp add: ex0_def ex2_def ex_negative_def eval_defs)

lemma update_priorities_unadded: "update_priorities ex0 [1] [0] = Inr ex_unadded"
  by (simp add: ex0_def ex_unadded_def eval_defs)

lemma sample_unadded: "sample ex_unadded zero_draws = Inr ([None], [1], [0])"
  by (simp add: ex0_def ex_unadded_def sample_def encode_samples_def choices_def zero_draws_def
       bisect_right.simps eval_defs)

subsection \<open>\<^verbatim>\<open>priorities_max\<close>\<close>

text \<open>
  C3 (\<^verbatim>\<open>priorities_max\<close> is the true maximum of the stored priorities after every
  mutating call) is what \<^verbatim>\<open>add\<close> provides for, by rescanning the rows when it evicts
  the row that held the maximum (lines 155--157), and what \<^verbatim>\<open>update_priorities\<close>
  misses: it only ever raises \<^verbatim>\<open>priorities_max\<close> (lines 112--113). With both slots of
  the example buffer occupied at priority 1, lowering both priorities to \<open>1 / 2\<close> leaves
  \<^verbatim>\<open>priorities_max\<close> at 1.
\<close>

theorem update_priorities_keeps_stale_maximum:
  "init 2 1 False 1 1 = Inr ex0 \<and> adds ex0 [10, 11] = Inr ex2 \<and>
   update_priorities ex2 [1 / 2, 1 / 2] [0, 1] = Inr ex_lowered \<and>
   map priority (data ex_lowered) = [1 / 2, 1 / 2] \<and> priorities_max ex_lowered = 1"
  by (intro conjI init_ex0 adds_ex0_2 update_priorities_lower)
     (simp_all add: ex_lowered_def ex2_def ex0_def)

subsection \<open>The weights written by \<^verbatim>\<open>update_parameters\<close>\<close>

text \<open>
  C6 (after \<^verbatim>\<open>update_parameters\<close>, every weight is
  \<open>(occupied_count * priority) ** (-beta) / weights_max\<close>): line 144 raises
  \<^verbatim>\<open>N * element[1]\<close> to the power, the probability the row stored before the call, where
  \<^verbatim>\<open>update_priorities\<close> (line 116) uses the priority. On the full example buffer with
  \<^verbatim>\<open>compute_weights=True\<close> both priorities are 1, \<open>beta\<close> is 1 and \<^verbatim>\<open>weights_max\<close> is 1,
  so the claimed weight is \<open>(2 * 1) ** (-1) / 1 = 1 / 2\<close> for both rows; row 0, whose old
  probability was \<open>1 / 2\<close>, gets the weight \<open>(2 * (1 / 2)) ** (-1) / 1 = 1\<close>.
\<close>

theorem update_parameters_weight_from_old_probability:
  "init 2 1 True 1 1 = Inr exw0 \<and> adds exw0 [10, 11] = Inr exw2 \<and>
   update_parameters exw2 = Inr exw2_annealed \<and>
   py_pow (of_int (min (experience_count exw2_annealed) (buffer_size exw2_annealed)) *
             priority (data exw2_annealed ! 0)) (- beta exw2_annealed) = Inr (1 / 2) \<and>
   weights_max exw2_annealed = 1 \<and> weight (data exw2_annealed ! 0) = 1"
  by (intro conjI init_exw0 adds_exw0 update_parameters_exw2)
     (simp_all add: exw2_annealed_def exw2_def ex2_def ex0_def py_pow_def powr_minus)

subsection \<open>Indices out of range\<close>

lemma np_index_None: "index \<ge> int n \<or> index < - int n \<Longrightarrow> np_index n index = None"
  by (auto simp: np_index_def)

lemma update_priority_out_of_range:
  assumes "index \<ge> int (length (data s)) \<or> index < - int (length (data s))"
  shows "\<exists>e s'. update_priority s td index = Inl (e, s') \<and> data s' = data s \<and>
           experience s' = experience s \<and> experience_count s' = experience_count s \<and>
           priorities_sum_alpha s' = priorities_sum_alpha s \<and>
           priorities_max s' = max td (priorities_max s) \<and>
           (\<not> compute_weights s \<longrightarrow> e = IndexError \<and> weights_max s' = weights_max s)"
proof -
  have n: "\<And>s'. data s' = data s \<Longrightarrow> np_index (length (data s')) index = None"
    using assms by (simp add: np_index_None)
  show ?thesis
    by (auto simp: update_priority_def Let_def n split: sum.splits prod.splits)
qed

text \<open>
  C7, as stated, fails for negative indices: numpy counts an index in
  \<open>-buffer_size .. -1\<close> from the end of the array. On the example buffer of capacity 2,
  \<^verbatim>\<open>update_priorities([0.5], [-1])\<close> returns normally, having rewritten row 1 and
  \<^verbatim>\<open>priorities_sum_alpha\<close>.
\<close>

theorem update_priorities_accepts_negative_index:
  "init 2 1 False 1 1 = Inr ex0 \<and> adds ex0 [10, 11] = Inr ex2 \<and>
   update_priorities ex2 [1 / 2] [- 1] = Inr ex_negative \<and>
   data ex_negative ! 1 \<noteq> data ex2 ! 1 \<and>
   priorities_sum_alpha ex_negative \<noteq> priorities_sum_alpha ex2"
  by (intro conjI init_ex0 adds_ex0_2 update_priorities_negative)
     (simp_all add: ex_negative_def ex2_def ex0_def)

lemma update_priority_Inr:
  assumes "update_priority s td index = Inr s'"
  shows "length (data s') = length (data s)" and "compute_weights s' = compute_weights s"
    and "buffer_size s' = buffer_size s"
  using assms
  by (auto simp: update_priority_def Let_def split: sum.splits option.splits prod.splits if_splits)

lemma update_priorities_Inr:
  "update_priorities s tds indices = Inr s' \<Longrightarrow>
     length (data s') = length (data s) \<and> compute_weights s' = compute_weights s"
proof (induction s tds indices rule: update_priorities.induct)
  case (1 s td tds index indices)
  from "1.prems" obtain s1 where s1: "update_priority s td index = Inr s1"
    and rest: "update_priorities s1 tds indices = Inr s'"
    by (auto split: sum.splits)
  from "1.IH" [OF s1 rest] update_priority_Inr(1,2) [OF s1] show ?case by simp
qed simp_all

lemma update_priorities_no_index: "update_priorities s tds [] = Inr s"
  by (cases tds) simp_all

text \<open>
  The loop over the first \<open>k\<close> pairs, followed by the loop over the remaining ones.
\<close>

lemma update_priorities_split:
  "update_priorities s tds indices =
     (case update_priorities s (take k tds) (take k indices) of
        Inl x \<Rightarrow> Inl x
      | Inr sk \<Rightarrow> update_priorities sk (drop k tds) (drop k indices))"
proof (induction s tds indices arbitrary: k rule: update_priorities.induct)
  case (1 s td tds index indices)
  show ?case
  proof (cases k)
    case 0
    then show ?thesis by simp
  next
    case (Suc k')
    show ?thesis
    proof (cases "update_priority s td index")
      case (Inl x)
      then show ?thesis unfolding Suc by simp
    next
      case (Inr s1)
      with "1.IH" [OF Inr, of k'] show ?thesis unfolding Suc by (simp split: sum.split)
    qed
  qed
qed (simp_all add: update_priorities_no_index)

text \<open>
  C7, amended: \<^verbatim>\<open>update_priorities\<close> given a slot index that is at least \<open>buffer_size\<close>
  or below \<open>-buffer_size\<close>, at any position \<open>k\<close> of the sequence, never returns
  normally. If the pairs before position \<open>k\<close> are processed without an exception, the
  call raises at pair \<open>k\<close>, before any row of \<^verbatim>\<open>data\<close> and before
  \<^verbatim>\<open>priorities_sum_alpha\<close> are written for that pair: the buffer is the one the earlier
  pairs left, except that \<^verbatim>\<open>priorities_max\<close> has been raised to the TD error of pair
  \<open>k\<close> if that is larger. Without \<^verbatim>\<open>compute_weights\<close> the exception is \<^verbatim>\<open>IndexError\<close>
  and \<^verbatim>\<open>weights_max\<close> is unchanged; with it, the weight computation of lines 116--118
  runs first and may raise instead. (If an earlier pair raises, the call ends there.)
\<close>

theorem update_priorities_index_out_of_range:
  assumes "wf s" and "k < length tds" and "k < length indices"
    and "buffer_size s \<le> indices ! k \<or> indices ! k < - buffer_size s"
  shows "(\<exists>e s'. update_priorities s tds indices = Inl (e, s')) \<and>
         (\<forall>sk. update_priorities s (take k tds) (take k indices) = Inr sk \<longrightarrow>
            (\<exists>e s'. update_priorities s tds indices = Inl (e, s') \<and>
               data s' = data sk \<and> experience s' = experience sk \<and>
               experience_count s' = experience_count sk \<and>
               priorities_sum_alpha s' = priorities_sum_alpha sk \<and>
               priorities_max s' = max (tds ! k) (priorities_max sk) \<and>
               (\<not> compute_weights s \<longrightarrow> e = IndexError \<and> weights_max s' = weights_max sk)))"
proof -
  have len: "length (data s) = nat (buffer_size s)" "0 \<le> buffer_size s"
    using assms(1) by (simp_all add: wf_def)
  have dt: "drop k tds = tds ! k # drop (Suc k) tds"
    and di: "drop k indices = indices ! k # drop (Suc k) indices"
    using assms(2,3) by (simp_all add: Cons_nth_drop_Suc)
  have step: "\<exists>e s'. update_priorities s tds indices = Inl (e, s') \<and>
               data s' = data sk \<and> experience s' = experience sk \<and>
               experience_count s' = experience_count sk \<and>
               priorities_sum_alpha s' = priorities_sum_alpha sk \<and>
               priorities_max s' = max (tds ! k) (priorities_max sk) \<and>
               (\<not> compute_weights s \<longrightarrow> e = IndexError \<and> weights_max s' = weights_max sk)"
    if sk: "update_priorities s (take k tds) (take k indices) = Inr sk" for sk
  proof -
    from update_priorities_Inr [OF sk]
    have l: "length (data sk) = length (data s)" and c: "compute_weights sk = compute_weights s"
      by simp_all
    have "indices ! k \<ge> int (length (data sk)) \<or> indices ! k < - int (length (data sk))"
      using assms(4) len l by auto
    from update_priority_out_of_range [OF this, of "tds ! k"] obtain e s' where
      r: "update_priority sk (tds ! k) (indices ! k) = Inl (e, s')"
      and p: "data s' = data sk" "experience s' = experience sk"
        "experience_count s' = experience_count sk"
        "priorities_sum_alpha s' = priorities_sum_alpha sk"
        "priorities_max s' = max (tds ! k) (priorities_max sk)"
        "\<not> compute_weights sk \<longrightarrow> e = IndexError \<and> weights_max s' = weights_max sk"
      by blast
    have "update_priorities s tds indices = Inl (e, s')"
      by (subst update_priorities_split [of s tds indices k]) (simp add: sk dt di r)
    with p c show ?thesis by simp
  qed
  have "\<exists>e s'. update_priorities s tds indices = Inl (e, s')"
  proof (cases "update_priorities s (take k tds) (take k indices)")
    case (Inl x)
    then have "update_priorities s tds indices = Inl x"
      by (subst update_priorities_split [of s tds indices k]) simp
    then show ?thesis by (cases x) simp
  next
    case (Inr sk)
    from step [OF Inr] show ?thesis by blast
  qed
  with step show ?thesis by blast
qed

theorem update_priorities_index_out_of_range_witness:
  "wf ex2 \<and> (1::nat) < length [1 / 2, 1 / 2 :: real] \<and> (1::nat) < length [0, 2 :: int] \<and>
   buffer_size ex2 \<le> [0, 2] ! 1 \<and>
   update_priorities ex2 (take 1 [1 / 2, 1 / 2]) (take 1 [0, 2]) = Inr ex_first \<and>
   update_priorities ex2 [1 / 2, 1 / 2] [0, 2] = Inl (IndexError, ex_first)"
proof -
  have h: "wf ex2" "(1::nat) < length [1 / 2, 1 / 2 :: real]" "(1::nat) < length [0, 2 :: int]"
    "buffer_size ex2 \<le> [0, 2] ! 1 \<or> [0, 2] ! 1 < - buffer_size ex2"
    by (simp_all add: wf_def ex2_def ex0_def)
  have f: "update_priorities ex2 (take 1 [1 / 2, 1 / 2]) (take 1 [0, 2]) = Inr ex_first"
    by (simp add: ex0_def ex2_def ex_first_def eval_defs)
  have g: "update_priorities ex2 [1 / 2, 1 / 2] [0, 2] = Inl (IndexError, ex_first)"
    by (simp add: ex0_def ex2_def ex_first_def eval_defs)
  from update_priorities_index_out_of_range [OF h] f g h show ?thesis
    by (simp add: ex2_def ex0_def)
qed

section \<open>Properties of \<^verbatim>\<open>sample\<close>\<close>

lemma length_accumulate [simp]: "length (accumulate acc ws) = length ws"
  by (induction ws arbitrary: acc) auto

lemma accumulate_nth:
  "i < length ws \<Longrightarrow> accumulate acc ws ! i = acc + sum_list (take (Suc i) ws)"
proof (induction ws arbitrary: acc i)
  case Nil
  then show ?case by simp
next
  case (Cons w ws)
  then show ?case by (cases i) (simp_all add: add.assoc)
qed

lemma accumulate_last:
  "ws \<noteq> [] \<Longrightarrow> last (accumulate acc ws) = acc + sum_list ws"
proof -
  assume a: "ws \<noteq> []"
  then have "accumulate acc ws \<noteq> []"
    by (metis length_accumulate length_0_conv)
  then have "last (accumulate acc ws) = accumulate acc ws ! (length ws - 1)"
    by (simp add: last_conv_nth)
  also have "\<dots> = acc + sum_list (take (Suc (length ws - 1)) ws)"
    using a by (intro accumulate_nth) simp
  finally show ?thesis using a by simp
qed

lemma accumulate_diff:
  assumes "Suc i < length ws"
  shows "accumulate acc ws ! Suc i - accumulate acc ws ! i = ws ! Suc i"
proof -
  have "take (Suc (Suc i)) ws = take (Suc i) ws @ [ws ! Suc i]"
    using assms by (simp add: take_Suc_conv_app_nth)
  then show ?thesis
    using assms by (simp add: accumulate_nth)
qed

lemma accumulate_0: "ws \<noteq> [] \<Longrightarrow> accumulate 0 ws ! 0 = ws ! 0"
  by (cases ws) simp_all

lemma bisect_right_bounds:
  assumes "lo \<le> hi"
  shows "lo \<le> bisect_right a x lo hi \<and> bisect_right a x lo hi \<le> hi \<and>
         (bisect_right a x lo hi = lo \<or> a ! (bisect_right a x lo hi - 1) \<le> x) \<and>
         (bisect_right a x lo hi = hi \<or> x < a ! bisect_right a x lo hi)"
  using assms
proof (induction a x lo hi rule: bisect_right.induct)
  case (1 a x lo hi)
  show ?case
  proof (cases "lo < hi")
    case False
    then have "bisect_right a x lo hi = lo"
      by (subst bisect_right.simps) simp
    with "1.prems" False show ?thesis by auto
  next
    case True
    let ?mid = "(lo + hi) div 2"
    have m: "lo \<le> ?mid" "?mid < hi" using True by auto
    show ?thesis
    proof (cases "x < a ! ?mid")
      case left: True
      then have eq: "bisect_right a x lo hi = bisect_right a x lo ?mid"
        using True by (simp add: bisect_right.simps [of a x lo hi] Let_def)
      from "1.IH"(1) [OF True refl left m(1)] m left show ?thesis
        unfolding eq by auto
    next
      case right: False
      then have eq: "bisect_right a x lo hi = bisect_right a x (?mid + 1) hi"
        using True by (simp add: bisect_right.simps [of a x lo hi] Let_def)
      define r where "r = bisect_right a x (?mid + 1) hi"
      have "?mid + 1 \<le> hi" using m by simp
      from "1.IH"(2) [OF True refl right this]
      have ih: "?mid + 1 \<le> r" "r \<le> hi" "r = ?mid + 1 \<or> a ! (r - 1) \<le> x"
        "r = hi \<or> x < a ! r"
        by (simp_all add: r_def)
      have "a ! (r - 1) \<le> x"
      proof (cases "r = ?mid + 1")
        case True
        then have "r - 1 = ?mid" by simp
        with right show ?thesis by simp
      next
        case False
        with ih(3) show ?thesis by simp
      qed
      moreover have "lo \<le> r" using ih(1) m(1) by linarith
      ultimately show ?thesis
        unfolding eq r_def [symmetric] using ih(2,4) by blast
    qed
  qed
qed

lemma drawn_weight_positive:
  assumes "ws \<noteq> []" and "0 < last (accumulate 0 ws)" and "0 \<le> u" and "u < 1"
  defines "r \<equiv> bisect_right (accumulate 0 ws) (u * last (accumulate 0 ws)) 0 (length ws - 1)"
  shows "r < length ws \<and> 0 < ws ! r"
proof -
  let ?c = "accumulate 0 ws"
  let ?t = "last ?c"
  let ?n = "length ws"
  have n: "0 < ?n" using assms(1) by simp
  have cne: "?c \<noteq> []" using assms(1) by (metis length_accumulate length_0_conv)
  have t: "?t = ?c ! (?n - 1)" using cne by (simp add: last_conv_nth)
  have x: "0 \<le> u * ?t" "u * ?t < ?t" using assms(2,3,4) by simp_all
  from bisect_right_bounds [of 0 "?n - 1" ?c "u * ?t"]
  have b: "r \<le> ?n - 1" "r = 0 \<or> ?c ! (r - 1) \<le> u * ?t" "r = ?n - 1 \<or> u * ?t < ?c ! r"
    by (simp_all add: r_def)
  have lt: "r < ?n" using b(1) assms(1) by (cases ws) auto
  have up: "u * ?t < ?c ! r" using b(3) x(2) t by auto
  have "0 < ws ! r"
  proof (cases r)
    case 0
    then show ?thesis using up x(1) accumulate_0 [OF assms(1)] by simp
  next
    case (Suc k)
    then have "?c ! k \<le> u * ?t" using b(2) by simp
    moreover have "?c ! Suc k - ?c ! k = ws ! Suc k"
      using lt Suc by (intro accumulate_diff) simp
    ultimately show ?thesis using up Suc by simp
  qed
  with lt show ?thesis by simp
qed

lemma choices_drawn:
  assumes "choices population (map f population) k rnd = Inr rows"
    and "list_all (\<lambda>j. 0 \<le> rnd j \<and> rnd j < 1) [0..<nat k]"
    and "x \<in> set rows"
  shows "x \<in> set population \<and> 0 < f x"
proof -
  let ?ws = "map f population"
  let ?c = "accumulate 0 ?ws"
  from assms(1) have ne: "?c \<noteq> []" and tot: "0 < last ?c"
    and rows: "rows = map (\<lambda>j. population ! bisect_right ?c (rnd j * last ?c) 0
                               (length population - 1)) [0..<nat k]"
    by (auto simp: choices_def Let_def split: if_splits)
  from ne have wne: "?ws \<noteq> []" by (metis length_accumulate length_0_conv)
  from assms(3) rows obtain j where j: "j < nat k" and
    xj: "x = population ! bisect_right ?c (rnd j * last ?c) 0 (length population - 1)"
    by auto
  define r where "r = bisect_right ?c (rnd j * last ?c) 0 (length ?ws - 1)"
  have uj: "0 \<le> rnd j" "rnd j < 1" using assms(2) j by (simp_all add: list_all_iff)
  have dw: "r < length ?ws \<and> 0 < ?ws ! r"
    unfolding r_def by (rule drawn_weight_positive [OF wne tot uj])
  then have lt: "r < length population" by simp
  with dw have "0 < f (population ! r)" by simp
  moreover have "x = population ! r" using xj by (simp add: r_def)
  ultimately show ?thesis using lt by simp
qed

subsection \<open>Sampling from an empty buffer\<close>

text \<open>
  C8, as stated, fails: \<^verbatim>\<open>sample\<close> never looks at \<^verbatim>\<open>experience_count\<close>. The draw of
  \<^verbatim>\<open>random.choices\<close> fails only when the stored probabilities do not add up to a
  positive number. After \<^verbatim>\<open>update_priorities([1], [0])\<close> on the fresh buffer, no
  transition has been added (\<^verbatim>\<open>experience_count\<close> is 0) and \<^verbatim>\<open>sample\<close> returns a batch:
  the unwritten row 0 of \<^verbatim>\<open>experience\<close>, with weight 1.
\<close>

theorem sample_returns_batch_without_add:
  "init 2 1 False 1 1 = Inr ex0 \<and> update_priorities ex0 [1] [0] = Inr ex_unadded \<and>
   min (experience_count ex_unadded) (buffer_size ex_unadded) = 0 \<and>
   sample ex_unadded zero_draws = Inr ([None], [1], [0])"
  by (intro conjI init_ex0 update_priorities_unadded sample_unadded)
     (simp add: ex_unadded_def ex0_def)

text \<open>
  C8, amended: \<^verbatim>\<open>sample\<close> on a buffer of capacity at least 1 in which every stored
  probability is 0, as in a freshly constructed buffer, raises \<^verbatim>\<open>ValueError\<close> (the
  error of \<^verbatim>\<open>random.choices\<close> for a total weight that is not positive); no batch is
  returned and nothing is retried.
\<close>

theorem sample_without_probabilities_raises:
  assumes "data s \<noteq> []" and "\<forall>r \<in> set (data s). probability r = 0"
  shows "sample s rnd = Inl ValueError"
proof -
  have "map probability (data s) = replicate (length (data s)) 0"
    using assms(2) by (simp add: map_replicate_const [symmetric] cong: map_cong)
  then have "sum_list (map probability (data s)) = 0"
    by (simp add: sum_list_replicate)
  moreover have "map probability (data s) \<noteq> []" using assms(1) by simp
  ultimately have "last (accumulate 0 (map probability (data s))) = 0"
    by (simp add: accumulate_last)
  moreover have "accumulate 0 (map probability (data s)) \<noteq> []"
    using assms(1) by (metis length_accumulate length_0_conv length_map)
  ultimately show ?thesis
    by (simp add: sample_def encode_samples_def choices_def Let_def)
qed

theorem sample_without_probabilities_raises_witness:
  "init 2 1 False 1 1 = Inr ex0 \<and> data ex0 \<noteq> [] \<and> sample ex0 zero_draws = Inl ValueError"
proof -
  have h: "data ex0 \<noteq> []" "\<forall>r \<in> set (data ex0). probability r = 0"
    by (simp_all add: ex0_def zero_row_def)
  from sample_without_probabilities_raises [OF h] h(1) init_ex0 show ?thesis
    by simp
qed

section \<open>Buffers that do not compute weights\<close>

lemma in_set_updateD:
  "r \<in> set (xs[i := v]) \<Longrightarrow> r = v \<or> r \<in> set xs"
  using set_update_subset_insert [of xs i v] by auto

lemma rows_update:
  assumes "\<forall>r \<in> set xs. r = zero_row \<or> weight r = 1"
    and "i < length xs \<Longrightarrow> v = zero_row \<or> weight v = 1"
  shows "\<forall>r \<in> set (xs[i := v]). r = zero_row \<or> weight r = 1"
proof (cases "i < length xs")
  case True
  have "set (xs[i := v]) \<subseteq> insert v (set xs)" by (rule set_update_subset_insert)
  with assms True show ?thesis by auto
next
  case False
  then have "xs[i := v] = xs" by (simp add: list_update_beyond)
  with assms(1) show ?thesis by simp
qed

lemma rows_update_priority:
  assumes "\<forall>r \<in> set xs. r = zero_row \<or> weight r = 1"
  shows "\<forall>r \<in> set (xs[i := (xs ! i)\<lparr>priority := 0\<rparr>]). r = zero_row \<or> weight r = 1"
proof (rule rows_update [OF assms])
  assume "i < length xs"
  then have "xs ! i = zero_row \<or> weight (xs ! i) = 1" using assms by simp
  then show "(xs ! i)\<lparr>priority := 0\<rparr> = zero_row \<or> weight ((xs ! i)\<lparr>priority := 0\<rparr>) = 1"
    by (auto simp: zero_row_def)
qed

lemma weights_fixed_add_overflow:
  assumes "weights_fixed s"
  shows "weights_fixed (state_of (add_overflow s index)) \<and>
         batch_size (state_of (add_overflow s index)) = batch_size s"
  using assms rows_update_priority [of "data s"]
  by (auto simp: weights_fixed_def state_of_def add_overflow_def Let_def
           split: option.splits sum.splits)

lemma weights_fixed_add_insert:
  assumes "weights_fixed s"
  shows "weights_fixed (state_of (add_insert s index t)) \<and>
         batch_size (state_of (add_insert s index t)) = batch_size s"
  using assms
  by (auto simp: add_insert_def Let_def state_of_def weights_fixed_def
           split: sum.splits option.splits dest!: in_set_updateD)

lemma weights_fixed_add:
  assumes "weights_fixed s"
  shows "weights_fixed (state_of (add s t)) \<and> batch_size (state_of (add s t)) = batch_size s"
proof -
  let ?s = "s\<lparr>experience_count := experience_count s + 1\<rparr>"
  let ?index = "experience_count ?s mod buffer_size ?s"
  have w0: "weights_fixed ?s" "batch_size ?s = batch_size s"
    using assms by (simp_all add: weights_fixed_def)
  show ?thesis
  proof (cases "buffer_size s = 0")
    case True
    then have "add s t = Inl (ZeroDivisionError, ?s)" by (simp add: add_def)
    with w0 show ?thesis by (simp add: state_of_def)
  next
    case nz: False
    show ?thesis
    proof (cases "experience_count ?s > buffer_size ?s")
      case True
      show ?thesis
      proof (cases "add_overflow ?s ?index")
        case (Inl a)
        then have "add s t = Inl a" using nz True by (simp add: add_def Let_def)
        with weights_fixed_add_overflow [OF w0(1), of ?index] Inl w0(2) show ?thesis by simp
      next
        case (Inr s1)
        then have "add s t = add_insert s1 ?index t" using nz True by (simp add: add_def Let_def)
        moreover have "weights_fixed s1" "batch_size s1 = batch_size s"
          using weights_fixed_add_overflow [OF w0(1), of ?index] Inr w0(2)
          by (simp_all add: state_of_def)
        ultimately show ?thesis using weights_fixed_add_insert [of s1 ?index t] by simp
      qed
    next
      case False
      then have "add s t = add_insert ?s ?index t" using nz by (simp add: add_def Let_def)
      with weights_fixed_add_insert [OF w0(1), of ?index t] w0(2) show ?thesis by simp
    qed
  qed
qed

lemma weights_fixed_update_priority:
  assumes "weights_fixed s"
  shows "weights_fixed (state_of (update_priority s td index)) \<and>
         batch_size (state_of (update_priority s td index)) = batch_size s"
  using assms
  by (auto simp: update_priority_def Let_def state_of_def weights_fixed_def
           split: sum.splits option.splits dest!: in_set_updateD)

lemma weights_fixed_update_priorities:
  "weights_fixed s \<Longrightarrow>
     weights_fixed (state_of (update_priorities s tds indices)) \<and>
     batch_size (state_of (update_priorities s tds indices)) = batch_size s"
proof (induction s tds indices rule: update_priorities.induct)
  case (1 s td tds index indices)
  show ?case
  proof (cases "update_priority s td index")
    case (Inl a)
    with weights_fixed_update_priority [OF "1.prems", of td index] show ?thesis
      by simp
  next
    case (Inr s')
    with weights_fixed_update_priority [OF "1.prems", of td index]
    have "weights_fixed s'" "batch_size s' = batch_size s" by (simp_all add: state_of_def)
    with "1.IH" [OF Inr] Inr show ?thesis by simp
  qed
qed (simp_all add: state_of_def)

lemma weights_fixed_recompute_row:
  assumes "weights_fixed s"
  shows "weights_fixed (state_of (recompute_row s N i)) \<and>
         batch_size (state_of (recompute_row s N i)) = batch_size s"
  using assms
  by (auto simp: recompute_row_def Let_def state_of_def weights_fixed_def
           split: sum.splits option.splits dest!: in_set_updateD)

lemma weights_fixed_recompute_rows:
  "weights_fixed s \<Longrightarrow>
     weights_fixed (state_of (recompute_rows s N is)) \<and>
     batch_size (state_of (recompute_rows s N is)) = batch_size s"
proof (induction "is" arbitrary: s)
  case Nil
  then show ?case by (simp add: state_of_def)
next
  case (Cons i "is")
  show ?case
  proof (cases "recompute_row s N i")
    case (Inl a)
    with weights_fixed_recompute_row [OF Cons.prems, of N i] show ?thesis by simp
  next
    case (Inr s')
    with weights_fixed_recompute_row [OF Cons.prems, of N i]
    have "weights_fixed s'" "batch_size s' = batch_size s" by (simp_all add: state_of_def)
    with Cons.IH [of s'] Inr show ?thesis by simp
  qed
qed

lemma weights_fixed_update_parameters:
  assumes "weights_fixed s"
  shows "weights_fixed (state_of (update_parameters s)) \<and>
         batch_size (state_of (update_parameters s)) = batch_size s"
proof -
  have w3: "weights_fixed (anneal s)" "batch_size (anneal s) = batch_size s"
    using assms by (simp_all add: weights_fixed_def anneal_def Let_def)
  then have w4: "weights_fixed ((anneal s)\<lparr>priorities_sum_alpha := v\<rparr>)" for v
    by (simp add: weights_fixed_def)
  show ?thesis
  proof (cases "pow_all (map priority (data (anneal s))) (alpha (anneal s))")
    case (Inl e)
    then have "update_parameters s = Inl (e, anneal s)"
      by (simp add: update_parameters_def Let_def)
    with w3 show ?thesis by (simp add: state_of_def)
  next
    case (Inr ps)
    then have "update_parameters s =
        recompute_rows ((anneal s)\<lparr>priorities_sum_alpha := sum_list ps\<rparr>)
          (min (experience_count (anneal s)) (buffer_size (anneal s)))
          [0..<length (data (anneal s))]"
      by (simp add: update_parameters_def Let_def)
    with weights_fixed_recompute_rows [OF w4] w3(2) show ?thesis by simp
  qed
qed

lemma sample_weights_fixed:
  assumes "weights_fixed s"
    and "list_all (\<lambda>j. 0 \<le> rnd j \<and> rnd j < 1) [0..<nat (batch_size s)]"
    and "sample s rnd = Inr (transitions, weights, idx)"
  shows "\<forall>w \<in> set weights. w = 1"
proof -
  from assms(3) obtain rows where
    ch: "choices (data s) (map probability (data s)) (batch_size s) rnd = Inr rows"
    and w: "weights = map weight rows"
    by (auto simp: sample_def encode_samples_def Let_def split: sum.splits if_splits)
  have "weight x = 1" if "x \<in> set rows" for x
  proof -
    from choices_drawn [OF ch assms(2) that] have "x \<in> set (data s)" "0 < probability x"
      by simp_all
    then have "x \<noteq> zero_row" by (auto simp: zero_row_def)
    with \<open>x \<in> set (data s)\<close> assms(1) show ?thesis by (auto simp: weights_fixed_def)
  qed
  with w show ?thesis by auto
qed

lemma run_call_weights_fixed:
  assumes "weights_fixed s" and "unit_draws (nat (batch_size s)) c"
    and "run_call s c = (s', ws)"
  shows "weights_fixed s' \<and> batch_size s' = batch_size s \<and> (\<forall>w \<in> set ws. w = 1)"
proof (cases c)
  case (Add t)
  with assms weights_fixed_add [OF assms(1), of t] show ?thesis by auto
next
  case (UpdatePriorities tds indices)
  with assms weights_fixed_update_priorities [OF assms(1), of tds indices] show ?thesis by auto
next
  case UpdateParameters
  with assms weights_fixed_update_parameters [OF assms(1)] show ?thesis by auto
next
  case (Sample rnd)
  with assms(2) have u: "list_all (\<lambda>j. 0 \<le> rnd j \<and> rnd j < 1) [0..<nat (batch_size s)]"
    by simp
  show ?thesis
  proof (cases "sample s rnd")
    case (Inl e)
    with assms Sample show ?thesis by auto
  next
    case (Inr b)
    obtain transitions weights idx where b: "b = (transitions, weights, idx)"
      by (cases b) auto
    with Inr assms Sample have "s' = s" "ws = weights" by auto
    with sample_weights_fixed [OF assms(1) u Inr [unfolded b]] assms(1) show ?thesis by simp
  qed
qed

lemma run_calls_weights_fixed:
  assumes "weights_fixed s" and "\<forall>c \<in> set cs. unit_draws (nat (batch_size s)) c"
    and "run_calls s cs = (s', ws)"
  shows "weights_fixed s' \<and> (\<forall>w \<in> set ws. w = 1)"
  using assms
proof (induction cs arbitrary: s s' ws)
  case Nil
  then show ?case by simp
next
  case (Cons c cs)
  obtain s1 ws1 where c: "run_call s c = (s1, ws1)" by (cases "run_call s c") auto
  obtain s2 ws2 where cs: "run_calls s1 cs = (s2, ws2)" by (cases "run_calls s1 cs") auto
  from Cons.prems(3) c cs have r: "s' = s2" "ws = ws1 @ ws2" by auto
  have uc: "unit_draws (nat (batch_size s)) c" using Cons.prems(2) by simp
  from run_call_weights_fixed [OF Cons.prems(1) uc c]
  have 1: "weights_fixed s1" "batch_size s1 = batch_size s" "\<forall>w \<in> set ws1. w = 1"
    by simp_all
  have u1: "\<forall>c \<in> set cs. unit_draws (nat (batch_size s1)) c"
    using Cons.prems(2) 1(2) by simp
  from Cons.IH [OF 1(1) u1 cs]
  have 2: "weights_fixed s2" "\<forall>w \<in> set ws2. w = 1" by simp_all
  from 1(3) 2 r show ?case by auto
qed

text \<open>
  C9: in a buffer constructed with \<^verbatim>\<open>compute_weights=False\<close>, after any sequence of calls
  of \<^verbatim>\<open>add\<close>, \<^verbatim>\<open>update_priorities\<close>, \<^verbatim>\<open>update_parameters\<close> and \<^verbatim>\<open>sample\<close> (with any
  arguments, and whether or not some of the calls raised), every importance weight that a
  call of \<^verbatim>\<open>sample\<close> returned is exactly 1, \<^verbatim>\<open>weights_max\<close> is 1, and every row of
  \<^verbatim>\<open>data\<close> that has been written (every row other than the initial row of zeros) stores
  the weight 1. The only assumption is that the draws of \<^verbatim>\<open>random.random()\<close> lie in
  \<open>[0, 1)\<close>.
\<close>

theorem weights_are_one_without_compute_weights:
  assumes "init sz b False a be = Inr s0" and "\<forall>c \<in> set cs. unit_draws (nat b) c"
    and "run_calls s0 cs = (s, ws)"
  shows "(\<forall>w \<in> set ws. w = 1) \<and> weights_max s = 1 \<and>
         (\<forall>r \<in> set (data s). r \<noteq> zero_row \<longrightarrow> weight r = 1)"
proof -
  have w: "weights_fixed s0" and bs: "batch_size s0 = b"
    using init_Inr(5,6,7,8) [OF assms(1)] by (simp_all add: weights_fixed_def)
  have u: "\<forall>c \<in> set cs. unit_draws (nat (batch_size s0)) c"
    using assms(2) bs by simp
  from run_calls_weights_fixed [OF w u assms(3)]
  have "weights_fixed s" and "\<forall>w \<in> set ws. w = 1" by simp_all
  then show ?thesis by (auto simp: weights_fixed_def)
qed

theorem weights_are_one_without_compute_weights_witness:
  "init 2 1 False 1 1 = Inr ex0 \<and> unit_draws (nat 1) (Sample zero_draws :: nat call) \<and>
   run_calls ex0 [Add 10, UpdatePriorities [1] [1], UpdateParameters, Sample zero_draws]
     = (ex1_annealed, [1]) \<and>
   weights_max ex1_annealed = 1 \<and> weight (data ex1_annealed ! 1) = 1"
proof -
  let ?cs = "[Add 10, UpdatePriorities [1] [1], UpdateParameters, Sample zero_draws] :: nat call list"
  have u: "\<forall>c \<in> set ?cs. unit_draws (nat 1) c" by (simp add: zero_draws_def)
  have 1: "update_priorities ex1 [1] [1] = Inr ex1"
    by (simp add: ex0_def ex1_def eval_defs)
  have 2: "update_parameters ex1 = Inr ex1_annealed"
    by (simp add: ex0_def ex1_def ex1_annealed_def update_parameters_def anneal_def
        recompute_row_def alpha_decay_rate_def beta_growth_rate_def eval_defs upt_rec)
  have 3: "sample ex1_annealed zero_draws = Inr ([Some 10], [1], [1])"
    by (simp add: ex0_def ex1_def ex1_annealed_def sample_def encode_samples_def choices_def
        zero_draws_def bisect_right.simps eval_defs)
  have r: "run_calls ex0 ?cs = (ex1_annealed, [1])"
    by (simp add: add_ex0 1 2 3 state_of_def del: update_priorities.simps)
  from weights_are_one_without_compute_weights [OF init_ex0 u r] init_ex0 r
  show ?thesis by (simp add: zero_draws_def ex1_annealed_def)
qed

end
